theory Spec2Isabelle
  imports Main
begin

section \<open>Strings\<close>

text \<open>
  A Python \<open>str\<close> is a sequence of code points. The model takes the code points
  0 to 255 (Latin-1): a \<open>char\<close> is one code point, \<open>of_char\<close> gives its number,
  and \<open>length\<close> counts code points as Python's \<open>len\<close> does.
\<close>

definition newline :: char where
  "newline = CHR 0x0A"

text \<open>\<open>str.lower()\<close> on one code point below 256: A-Z and the upper-case letters of
  Latin-1 (0xC0 to 0xDE without the multiplication sign 0xD7) move up by 32.\<close>

definition lower_char :: "char \<Rightarrow> char" where
  "lower_char c =
     (let n = (of_char c :: nat)
      in if (65 \<le> n \<and> n \<le> 90) \<or> (192 \<le> n \<and> n \<le> 222 \<and> n \<noteq> 215)
         then char_of (n + 32) else c)"

definition lower :: "string \<Rightarrow> string" where
  "lower s = map lower_char s"

text \<open>The white space of \<open>str.strip()\<close> and of the regular expression class \<open>\s\<close>
  below 256: tab to carriage return, the separators 0x1C to 0x1F, space, 0x85, 0xA0.\<close>

definition is_space :: "char \<Rightarrow> bool" where
  "is_space c =
     (let n = (of_char c :: nat)
      in (9 \<le> n \<and> n \<le> 13) \<or> (28 \<le> n \<and> n \<le> 32) \<or> n = 133 \<or> n = 160)"

definition strip :: "string \<Rightarrow> string" where
  "strip s = rev (dropWhile is_space (rev (dropWhile is_space s)))"

text \<open>\<open>s.split("\n")\<close>: the pieces between newlines; the empty string gives one
  empty piece.\<close>

fun split_newline :: "string \<Rightarrow> string list" where
  "split_newline [] = [[]]"
| "split_newline (c # cs) =
     (if c = newline then [] # split_newline cs
      else (case split_newline cs of
              [] \<Rightarrow> [[c]]
            | p # ps \<Rightarrow> (c # p) # ps))"

text \<open>\<open>sep.join(xs)\<close>.\<close>

fun join :: "string \<Rightarrow> string list \<Rightarrow> string" where
  "join sep [] = []"
| "join sep [x] = x"
| "join sep (x # y # ys) = x @ sep @ join sep (y # ys)"

text \<open>\<open>str(n)\<close> for a length: the decimal digits.\<close>

fun str_nat :: "nat \<Rightarrow> string" where
  "str_nat n =
     (if n < 10 then [char_of (48 + n)]
      else str_nat (n div 10) @ [char_of (48 + n mod 10)])"

declare str_nat.simps [simp del]

text \<open>\<open>s.replace(old, new)\<close> for a non-empty \<open>old\<close>: every occurrence, left to
  right, without overlap.\<close>

fun replace :: "string \<Rightarrow> string \<Rightarrow> string \<Rightarrow> string" where
  "replace old new [] = []"
| "replace old new (c # cs) =
     (if old \<noteq> [] \<and> take (length old) (c # cs) = old
      then new @ replace old new (drop (length old - 1) cs)
      else c # replace old new cs)"

section \<open>Regular expressions\<close>

text \<open>
  The fragment of Python's \<open>re\<close> that the two patterns of the validator use: the
  anchors \<open>^\<close> and \<open>$\<close>, a literal character, one or more characters of a class
  (\<open>[a-z]+\<close>, \<open>\s+\<close>, \<open>.{1,}\<close>), sequence, the greedy option \<open>?\<close> and a numbered
  capturing group.
\<close>

datatype regex =
    Bol
  | Eol
  | Lit char
  | Plus "char \<Rightarrow> bool"
  | Seq regex regex
  | Opt regex
  | Group nat regex

text \<open>
  A matcher state is the position reached, the rest of the subject and the groups
  captured so far. \<open>alts\<close> lists the states a pattern can end in, in the order in
  which the backtracking matcher tries them: a greedy repetition takes the longest
  run first and gives characters back one at a time; an option tries its body first.
  \<open>$\<close> holds at the end and before a newline that ends the subject.
\<close>

type_synonym mstate = "nat \<times> string \<times> (nat \<rightharpoonup> string)"

text \<open>The lengths a greedy repetition tries when the longest run has \<open>n\<close> characters.\<close>

definition give_back :: "nat \<Rightarrow> nat list" where
  "give_back n = rev [1 ..< Suc n]"

fun alts :: "regex \<Rightarrow> mstate \<Rightarrow> mstate list" where
  "alts Bol (i, rest, g) = (if i = 0 then [(i, rest, g)] else [])"
| "alts Eol (i, rest, g) = (if rest = [] \<or> rest = [newline] then [(i, rest, g)] else [])"
| "alts (Lit c) (i, rest, g) =
     (case rest of
        [] \<Rightarrow> []
      | x # xs \<Rightarrow> if x = c then [(Suc i, xs, g)] else [])"
| "alts (Plus p) (i, rest, g) =
     map (\<lambda>k. (i + k, drop k rest, g)) (give_back (length (takeWhile p rest)))"
| "alts (Seq a b) st = concat (map (alts b) (alts a st))"
| "alts (Opt a) st = alts a st @ [st]"
| "alts (Group n a) (i, rest, g) =
     map (\<lambda>(j, rest', h). (j, rest', h(n \<mapsto> take (j - i) rest))) (alts a (i, rest, g))"

text \<open>\<open>re.match(pattern, s)\<close>: the first way to match at the start of \<open>s\<close>, as the
  groups it captured, or \<open>None\<close>.\<close>

definition re_match :: "regex \<Rightarrow> string \<Rightarrow> (nat \<rightharpoonup> string) option" where
  "re_match r s =
     (case alts r (0, s, Map.empty) of
        [] \<Rightarrow> None
      | (j, rest, g) # _ \<Rightarrow> Some g)"

definition is_az :: "char \<Rightarrow> bool" where
  "is_az c = (97 \<le> (of_char c :: nat) \<and> (of_char c :: nat) \<le> 122)"

definition is_digit :: "char \<Rightarrow> bool" where
  "is_digit c = (48 \<le> (of_char c :: nat) \<and> (of_char c :: nat) \<le> 57)"

text \<open>The class \<open>[a-z0-9\-]\<close>.\<close>

definition is_scope_char :: "char \<Rightarrow> bool" where
  "is_scope_char c = (is_az c \<or> is_digit c \<or> c = CHR ''-'')"

text \<open>The class \<open>.\<close>: any character but a newline.\<close>

definition is_dot :: "char \<Rightarrow> bool" where
  "is_dot c = (c \<noteq> newline)"

section \<open>The commit validator\<close>

text \<open>\<open>^([a-z]+)\(([a-z0-9\-]+)\):\s+.{1,}$\<close>\<close>

definition pattern_scope :: regex where
  "pattern_scope =
     Seq Bol (Seq (Group 1 (Plus is_az))
       (Seq (Lit CHR ''('') (Seq (Group 2 (Plus is_scope_char)) (Seq (Lit CHR '')'')
         (Seq (Lit CHR '':'') (Seq (Plus is_space) (Seq (Plus is_dot) Eol)))))))"

text \<open>\<open>^([a-z]+)(\([a-z0-9\-]+\))?:\s+.{1,}$\<close>\<close>

definition pattern_any :: regex where
  "pattern_any =
     Seq Bol (Seq (Group 1 (Plus is_az))
       (Seq (Opt (Group 2 (Seq (Lit CHR ''('') (Seq (Plus is_scope_char) (Lit CHR '')'')))))
         (Seq (Lit CHR '':'') (Seq (Plus is_space) (Seq (Plus is_dot) Eol)))))"

definition pattern :: "bool \<Rightarrow> regex" where
  "pattern require_scope = (if require_scope then pattern_scope else pattern_any)"

text \<open>The character \<open>'\<close> as a string, for the messages that quote with it.\<close>

definition apostrophe :: string where
  "apostrophe = [CHR 0x27]"

definition format_error :: "bool \<Rightarrow> string" where
  "format_error require_scope =
     (if require_scope then ''must match format 'type(scope): description'' @ apostrophe
      else ''must match format 'type: description' or 'type(scope): description'' @ apostrophe)"

text \<open>\<open>match.group(1)\<close> is \<open>None\<close> for a group that took no part in the match, and an
  f-string prints that as \<open>None\<close>.\<close>

definition fmt_group :: "string option \<Rightarrow> string" where
  "fmt_group v = (case v of None \<Rightarrow> ''None'' | Some t \<Rightarrow> t)"

definition type_error :: "string option \<Rightarrow> string list \<Rightarrow> string" where
  "type_error commit_type allowed_types =
     ''type '' @ apostrophe @ fmt_group commit_type @ apostrophe @
     '' not in allowed types: '' @ join '', '' allowed_types"

text \<open>\<open>commit_type not in allowed_types\<close>: \<open>None\<close> equals no string.\<close>

definition not_in :: "string option \<Rightarrow> string list \<Rightarrow> bool" where
  "not_in v xs = (case v of None \<Rightarrow> True | Some t \<Rightarrow> t \<notin> set xs)"

definition validate_conventional_commit :: "string \<Rightarrow> string list \<Rightarrow> bool \<Rightarrow> bool \<times> string" where
  "validate_conventional_commit message allowed_types require_scope =
     (case re_match (pattern require_scope) (lower message) of
        None \<Rightarrow> (False, format_error require_scope)
      | Some m \<Rightarrow>
          (let commit_type = m 1
           in if allowed_types \<noteq> [] \<and> not_in commit_type allowed_types
              then (False, type_error commit_type allowed_types)
              else (True, [])))"


section \<open>The version-control command\<close>

text \<open>
  Both hooks reach the repository only through \<open>subprocess.run(["git"] + args, cwd=...)\<close>.
  The binary is not part of the program: it is a parameter, a function from the
  arguments, the working directory and the state of the world (repository, remote) to
  what the process did and the world it left. The process either completes with an exit
  code, its output and its error output, or \<open>subprocess.run\<close> itself raises (a missing
  directory or binary); \<open>check=True\<close> turns a nonzero exit code into
  \<open>CalledProcessError\<close>, the one exception \<open>run_git_command\<close> catches.
\<close>

datatype proc = Completed int string string | Raised string

type_synonym 'w git = "string list \<Rightarrow> string \<Rightarrow> 'w \<Rightarrow> proc \<times> 'w"

text \<open>An exception that leaves a function is \<open>Inl\<close> of its text.\<close>

definition run_git_command ::
  "'w git \<Rightarrow> string list \<Rightarrow> string \<Rightarrow> 'w \<Rightarrow> (string + bool \<times> string) \<times> 'w" where
  "run_git_command git args cwd w =
     (case git args cwd w of
        (Completed returncode out err, w') \<Rightarrow>
          if returncode = 0 then (Inr (True, strip out), w')
          else (Inr (False, strip err), w')
      | (Raised e, w') \<Rightarrow> (Inl e, w'))"

section \<open>Requests and responses\<close>

text \<open>
  A request is the JSON document on standard input, or text that \<open>json.load\<close> rejects.
  The fields have the types of the request schema; a field that is absent is \<open>None\<close>,
  so an absent field and an empty string stay apart.
\<close>

datatype 'r stdin = Malformed string | Parsed 'r

datatype json = JInt int | JStr string | JArr "json list" | JObj "(string \<times> json) list"

record response =
  r_success :: bool
  r_message :: string
  r_data :: "(string \<times> json) list"

record validator_config =
  c_allowed_types :: "string list option"
  c_require_scope :: "bool option"

record validator_request =
  v_project_root :: "string option"
  v_config :: "validator_config option"

record tagger_config =
  c_prefix :: "string option"
  c_annotated :: "bool option"
  c_sign :: "bool option"
  c_message :: "string option"
  c_push :: "bool option"

record tagger_request =
  t_version :: "string option"
  t_project_root :: "string option"
  t_config :: "tagger_config option"

text \<open>\<open>d.get(key, default)\<close> on a field of the given type.\<close>

definition get_or :: "'a option \<Rightarrow> 'a \<Rightarrow> 'a" where
  "get_or v d = (case v of None \<Rightarrow> d | Some x \<Rightarrow> x)"

text \<open>\<open>not field\<close> for a string field: absent or empty.\<close>

definition falsy :: "string option \<Rightarrow> bool" where
  "falsy v = (case v of None \<Rightarrow> True | Some x \<Rightarrow> x = [])"

section \<open>The commit validator hook\<close>

definition get_commits_since_last_tag ::
  "'w git \<Rightarrow> string \<Rightarrow> 'w \<Rightarrow> (string + bool \<times> string list) \<times> 'w" where
  "get_commits_since_last_tag git project_root w =
     (case run_git_command git [''describe'', ''--tags'', ''--abbrev=0''] project_root w of
        (Inl e, w1) \<Rightarrow> (Inl e, w1)
      | (Inr (success, last_tag), w1) \<Rightarrow>
          (case (if success \<and> last_tag \<noteq> []
                 then run_git_command git
                        [''log'', last_tag @ ''..HEAD'', ''--pretty=format:%s''] project_root w1
                 else run_git_command git [''log'', ''--pretty=format:%s''] project_root w1) of
             (Inl e, w2) \<Rightarrow> (Inl e, w2)
           | (Inr (success, commits), w2) \<Rightarrow>
               if \<not> success then (Inr (False, []), w2)
               else (Inr (True, map strip (filter (\<lambda>c. strip c \<noteq> []) (split_newline commits))),
                     w2)))"

definition default_allowed_types :: "string list" where
  "default_allowed_types =
     [''feat'', ''fix'', ''docs'', ''style'', ''refactor'', ''perf'', ''test'', ''build'',
      ''ci'', ''chore'', ''revert'']"

text \<open>The entries of \<open>invalid_commits\<close> are pairs of the commit message and its error.\<close>

fun validate_loop :: "string list \<Rightarrow> bool \<Rightarrow> string list \<Rightarrow> (string \<times> string) list" where
  "validate_loop allowed_types require_scope [] = []"
| "validate_loop allowed_types require_scope (commit # commits) =
     (case validate_conventional_commit commit allowed_types require_scope of
        (is_valid, error) \<Rightarrow>
          if \<not> is_valid
          then (commit, error) # validate_loop allowed_types require_scope commits
          else validate_loop allowed_types require_scope commits)"

definition validate_commits :: "string list \<Rightarrow> validator_config \<Rightarrow> (string \<times> string) list" where
  "validate_commits commits config =
     (let allowed_types = get_or (c_allowed_types config) default_allowed_types;
          require_scope = get_or (c_require_scope config) False
      in validate_loop allowed_types require_scope commits)"

definition failure :: "string \<Rightarrow> response \<times> int" where
  "failure msg = (\<lparr>r_success = False, r_message = msg, r_data = []\<rparr>, 1)"

definition error_detail :: "string \<times> string \<Rightarrow> string" where
  "error_detail item = ''  - '' @ take 60 (fst item) @ ''... -> '' @ snd item"

definition invalid_json :: "string \<times> string \<Rightarrow> json" where
  "invalid_json item = JObj [(''message'', JStr (fst item)), (''error'', JStr (snd item))]"

text \<open>\<open>main\<close> of the validator: the response it prints and its exit code.\<close>

definition validator_main ::
  "'w git \<Rightarrow> validator_request stdin \<Rightarrow> 'w \<Rightarrow> (response \<times> int) \<times> 'w" where
  "validator_main git input w =
     (case input of
        Malformed e \<Rightarrow> (failure (''Invalid JSON input: '' @ e), w)
      | Parsed input_data \<Rightarrow>
          (let project_root = v_project_root input_data;
               config = get_or (v_config input_data)
                          \<lparr>c_allowed_types = None, c_require_scope = None\<rparr>
           in if falsy project_root
              then (failure ''Missing required field: project_root'', w)
              else
                (case get_commits_since_last_tag git (get_or project_root []) w of
                   (Inl e, w') \<Rightarrow> (failure (''Unexpected error: '' @ e), w')
                 | (Inr (ok, commits), w') \<Rightarrow>
                     if \<not> ok
                     then (failure
                       ''Failed to retrieve git commits. Ensure you are in a git repository.'', w')
                     else if commits = []
                     then ((\<lparr>r_success = True, r_message = ''No commits to validate'',
                             r_data = [(''commits_checked'', JInt 0)]\<rparr>, 0), w')
                     else
                       (let invalid_commits = validate_commits commits config
                        in if invalid_commits \<noteq> []
                           then ((\<lparr>r_success = False,
                                   r_message = ''Found '' @ str_nat (length invalid_commits) @
                                     '' invalid commit(s):'' @ [newline] @
                                     join [newline] (map error_detail invalid_commits),
                                   r_data = [(''commits_checked'', JInt (int (length commits))),
                                           (''invalid_count'', JInt (int (length invalid_commits))),
                                           (''invalid_commits'',
                                              JArr (map invalid_json invalid_commits))]\<rparr>, 1), w')
                           else ((\<lparr>r_success = True,
                                   r_message = ''All '' @ str_nat (length commits) @
                                     '' commit(s) follow conventional commit format'',
                                   r_data = [(''commits_checked'', JInt (int (length commits))),
                                           (''invalid_count'', JInt 0)]\<rparr>, 0), w')))))"

section \<open>The tagger hook\<close>

definition tag_name_of :: "string \<Rightarrow> tagger_config \<Rightarrow> string" where
  "tag_name_of version config = get_or (c_prefix config) ''v'' @ version"

definition tag_message_of :: "string \<Rightarrow> tagger_config \<Rightarrow> string" where
  "tag_message_of version config =
     replace ''{version}'' version (get_or (c_message config) ''Release {version}'')"

text \<open>The arguments of the command that creates the tag.\<close>

definition tag_args_of :: "string \<Rightarrow> tagger_config \<Rightarrow> string list" where
  "tag_args_of version config =
     (let annotated = get_or (c_annotated config) True;
          sign = get_or (c_sign config) False;
          tag_name = tag_name_of version config;
          tag_message = tag_message_of version config
      in if annotated
         then [''tag''] @ [''-a'', tag_name, ''-m'', tag_message] @ (if sign then [''-s''] else [])
         else [''tag''] @ [tag_name])"

text \<open>What \<open>create_tag\<close> does once the check for an existing tag has let it through.\<close>

definition create_and_push ::
  "'w git \<Rightarrow> string \<Rightarrow> tagger_config \<Rightarrow> string \<Rightarrow> 'w \<Rightarrow> (string + bool \<times> string) \<times> 'w" where
  "create_and_push git version config project_root w =
     (let push = get_or (c_push config) False;
          tag_name = tag_name_of version config
      in case run_git_command git (tag_args_of version config) project_root w of
           (Inl e, w1) \<Rightarrow> (Inl e, w1)
         | (Inr (success, output), w1) \<Rightarrow>
             if \<not> success then (Inr (False, ''Failed to create tag: '' @ output), w1)
             else if push
             then (case run_git_command git [''push'', ''origin'', tag_name] project_root w1 of
                     (Inl e, w2) \<Rightarrow> (Inl e, w2)
                   | (Inr (success, output), w2) \<Rightarrow>
                       if \<not> success
                       then (Inr (False, ''Tag created but failed to push: '' @ output), w2)
                       else (Inr (True, ''Created and pushed tag '' @ tag_name), w2))
             else (Inr (True, ''Created tag '' @ tag_name), w1))"

definition create_tag ::
  "'w git \<Rightarrow> string \<Rightarrow> tagger_config \<Rightarrow> string \<Rightarrow> 'w \<Rightarrow> (string + bool \<times> string) \<times> 'w" where
  "create_tag git version config project_root w =
     (let tag_name = tag_name_of version config
      in case run_git_command git [''tag'', ''-l'', tag_name] project_root w of
           (Inl e, w1) \<Rightarrow> (Inl e, w1)
         | (Inr (success, _), w1) \<Rightarrow>
             if success
             then (case run_git_command git [''tag'', ''-l'', tag_name] project_root w1 of
                     (Inl e, w2) \<Rightarrow> (Inl e, w2)
                   | (Inr (existing_tags_success, existing_tags), w2) \<Rightarrow>
                       if existing_tags_success \<and> existing_tags \<noteq> []
                       then (Inr (False, ''Tag '' @ tag_name @ '' already exists''), w2)
                       else create_and_push git version config project_root w2)
             else create_and_push git version config project_root w1)"

text \<open>\<open>main\<close> of the tagger: the response it prints and its exit code.\<close>

definition tagger_main ::
  "'w git \<Rightarrow> tagger_request stdin \<Rightarrow> 'w \<Rightarrow> (response \<times> int) \<times> 'w" where
  "tagger_main git input w =
     (case input of
        Malformed e \<Rightarrow> (failure (''Invalid JSON input: '' @ e), w)
      | Parsed input_data \<Rightarrow>
          (let version = t_version input_data;
               project_root = t_project_root input_data;
               config = get_or (t_config input_data)
                          \<lparr>c_prefix = None, c_annotated = None, c_sign = None,
                           c_message = None, c_push = None\<rparr>
           in if falsy version
              then (failure ''Missing required field: version'', w)
              else if falsy project_root
              then (failure ''Missing required field: project_root'', w)
              else
                (case create_tag git (get_or version []) config (get_or project_root []) w of
                   (Inl e, w') \<Rightarrow> (failure (''Unexpected error: '' @ e), w')
                 | (Inr (ok, msg), w') \<Rightarrow>
                     ((\<lparr>r_success = ok, r_message = msg, r_data = []\<rparr>, if ok then 0 else 1), w'))))"

section \<open>Notions the properties are stated with\<close>

subsection \<open>Patterns\<close>

text \<open>The groups a pattern can set.\<close>

fun groups :: "regex \<Rightarrow> nat set" where
  "groups (Seq a b) = groups a \<union> groups b"
| "groups (Opt a) = groups a"
| "groups (Group n a) = insert n (groups a)"
| "groups _ = {}"

text \<open>What follows the type token in the two patterns of the validator.\<close>

definition tail_scope :: regex where
  "tail_scope =
     Seq (Lit CHR ''('') (Seq (Group 2 (Plus is_scope_char)) (Seq (Lit CHR '')'')
       (Seq (Lit CHR '':'') (Seq (Plus is_space) (Seq (Plus is_dot) Eol)))))"

definition tail_any :: regex where
  "tail_any =
     Seq (Opt (Group 2 (Seq (Lit CHR ''('') (Seq (Plus is_scope_char) (Lit CHR '')'')))))
       (Seq (Lit CHR '':'') (Seq (Plus is_space) (Seq (Plus is_dot) Eol)))"

definition tail :: "bool \<Rightarrow> regex" where
  "tail require_scope = (if require_scope then tail_scope else tail_any)"

text \<open>
  The pattern of the specification, \<open>^[a-z]+: .+$\<close>, with a group around \<open>[a-z]+\<close>
  so that the type token of a message it matches can be named.
\<close>

definition spec_tail :: regex where
  "spec_tail = Seq (Lit CHR '':'') (Seq (Lit CHR '' '') (Seq (Plus is_dot) Eol))"

definition spec_shape :: regex where
  "spec_shape = Seq Bol (Seq (Group 1 (Plus is_az)) spec_tail)"

definition spec_type_token :: "string \<Rightarrow> string option" where
  "spec_type_token message =
     (case re_match spec_shape message of None \<Rightarrow> None | Some g \<Rightarrow> g 1)"

text \<open>\<open>c.isupper()\<close> below 256: A-Z and the letters 0xC0 to 0xDE without 0xD7.\<close>

definition is_upper :: "char \<Rightarrow> bool" where
  "is_upper c =
     (let n = (of_char c :: nat)
      in (65 \<le> n \<and> n \<le> 90) \<or> (192 \<le> n \<and> n \<le> 222 \<and> n \<noteq> 215))"

subsection \<open>Commands\<close>

text \<open>A command fails: the process completes with a nonzero exit code.\<close>

definition command_fails :: "'w git \<Rightarrow> string list \<Rightarrow> string \<Rightarrow> 'w \<Rightarrow> bool" where
  "command_fails git args cwd w =
     (case fst (git args cwd w) of
        Completed returncode out err \<Rightarrow> returncode \<noteq> 0
      | Raised e \<Rightarrow> False)"

text \<open>A tag exists, as the program sees it: \<open>git tag -l <name>\<close> succeeds and prints
  something.\<close>

definition tag_listed :: "'w git \<Rightarrow> string \<Rightarrow> string \<Rightarrow> 'w \<Rightarrow> bool" where
  "tag_listed git project_root tag_name w =
     (case fst (git [''tag'', ''-l'', tag_name] project_root w) of
        Completed returncode out err \<Rightarrow> returncode = 0 \<and> strip out \<noteq> []
      | Raised e \<Rightarrow> False)"

text \<open>Listing a tag is a query: the process completes and leaves the world as it was.\<close>

definition listing_is_query :: "'w git \<Rightarrow> string \<Rightarrow> string \<Rightarrow> 'w \<Rightarrow> bool" where
  "listing_is_query git project_root tag_name w =
     (case git [''tag'', ''-l'', tag_name] project_root w of
        (Completed returncode out err, w') \<Rightarrow> w' = w
      | (Raised e, w') \<Rightarrow> False)"

subsection \<open>A small repository to run the hooks on\<close>

text \<open>
  A stand-in for the binary, used to run the hooks on concrete requests: a directory
  that may or may not be a repository, with its tags (newest first), the subjects of
  its commits (newest first) and a remote that may be out of reach.
\<close>

record repo =
  is_repo :: bool
  tags :: "string list"
  subjects :: "string list"
  remote_up :: bool

definition tag_of_args :: "string list \<Rightarrow> string" where
  "tag_of_args args =
     (case args of
        [t, n] \<Rightarrow> n
      | t # a # n # others \<Rightarrow> n
      | _ \<Rightarrow> [])"

definition sample_git :: "repo git" where
  "sample_git args cwd w =
     (if \<not> is_repo w then (Completed 128 [] ''fatal: not a git repository'', w)
      else if take 2 args = [''tag'', ''-l'']
      then (Completed 0 (join [newline] (filter (\<lambda>t. [t] = drop 2 args) (tags w))) [], w)
      else if take 1 args = [''tag'']
      then (if tag_of_args args \<in> set (tags w)
            then (Completed 128 [] ''fatal: tag already exists'', w)
            else (Completed 0 [] [], w\<lparr>tags := tag_of_args args # tags w\<rparr>))
      else if take 1 args = [''push'']
      then (if remote_up w then (Completed 0 [] [], w)
            else (Completed 1 [] ''error: failed to push some refs'', w))
      else if take 1 args = [''describe'']
      then (case tags w of
              [] \<Rightarrow> (Completed 128 [] ''fatal: No names found'', w)
            | t # ts \<Rightarrow> (Completed 0 (t @ [newline]) [], w))
      else if take 1 args = [''log'']
      then (Completed 0 (join [newline] (subjects w)) [], w)
      else (Completed 1 [] ''fatal: unknown command'', w))"

definition no_repo :: repo where
  "no_repo = \<lparr>is_repo = False, tags = [], subjects = [], remote_up = False\<rparr>"

definition fresh_repo :: repo where
  "fresh_repo = \<lparr>is_repo = True, tags = [], subjects = [], remote_up = True\<rparr>"

definition offline_repo :: repo where
  "offline_repo =
     \<lparr>is_repo = True, tags = [''v1.0.0''], subjects = [''feat: add x'', ''oops''],
      remote_up = False\<rparr>"

definition no_options :: tagger_config where
  "no_options =
     \<lparr>c_prefix = None, c_annotated = None, c_sign = None, c_message = None, c_push = None\<rparr>"

definition release_options :: tagger_config where
  "release_options =
     \<lparr>c_prefix = Some ''release-'', c_annotated = None, c_sign = None, c_message = None,
      c_push = Some True\<rparr>"

section \<open>Properties of the matcher\<close>

lemma set_give_back: "set (give_back n) = {k. 1 \<le> k \<and> k \<le> n}"
  by (auto simp: give_back_def)

lemma pattern_tail: "pattern rs = Seq Bol (Seq (Group 1 (Plus is_az)) (tail rs))"
  by (simp add: pattern_def pattern_scope_def pattern_any_def tail_def tail_scope_def
      tail_any_def)

lemma alts_SeqI:
  "y \<in> set (alts a x) \<Longrightarrow> z \<in> set (alts b y) \<Longrightarrow> z \<in> set (alts (Seq a b) x)"
  by auto

text \<open>A pattern leaves the groups it does not contain as they were.\<close>

lemma alts_keeps_group:
  "(j, rest', h) \<in> set (alts r (i, rest, g)) \<Longrightarrow> n \<notin> groups r \<Longrightarrow> h n = g n"
proof (induction r arbitrary: i rest g j rest' h)
  case Bol
  then show ?case by (simp split: if_splits)
next
  case Eol
  then show ?case by (simp split: if_splits)
next
  case (Lit c)
  then show ?case by (simp split: if_splits list.splits)
next
  case (Plus p)
  then show ?case by (auto simp: set_give_back)
next
  case (Seq a b)
  from Seq.prems obtain k r h' where
    a: "(k, r, h') \<in> set (alts a (i, rest, g))" and
    b: "(j, rest', h) \<in> set (alts b (k, r, h'))"
    by auto
  from Seq.prems have "n \<notin> groups a" "n \<notin> groups b" by simp_all
  with Seq.IH a b show ?case by metis
next
  case (Opt a)
  then show ?case by auto
next
  case (Group m a)
  from Group.prems obtain h' where
    a: "(j, rest', h') \<in> set (alts a (i, rest, g))" and
    h: "h = h'(m \<mapsto> take (j - i) rest)"
    by auto
  from Group.prems have "n \<noteq> m" "n \<notin> groups a" by simp_all
  with Group.IH a h show ?case by simp
qed

lemma groups_tail: "1 \<notin> groups (tail rs)"
  by (simp add: tail_def tail_scope_def tail_any_def)

text \<open>After the type token the patterns of the validator want \<open>(\<close> or \<open>:\<close>.\<close>

lemma tail_first:
  "x \<in> set (alts (tail rs) (i, rest, g)) \<Longrightarrow>
     \<exists>c cs. rest = c # cs \<and> (c = CHR ''('' \<or> c = CHR '':'')"
  by (cases rest) (auto simp: tail_def tail_scope_def tail_any_def split: if_splits)

lemma not_az_paren_colon: "\<not> is_az CHR ''(''" "\<not> is_az CHR '':''"
  by (simp_all add: is_az_def)

text \<open>A repetition that stops before a character outside its class took the whole run.\<close>

lemma takeWhile_run:
  assumes "k \<le> length (takeWhile p s)" "drop k s = c # cs" "\<not> p c"
  shows "take k s = takeWhile p s"
proof -
  have "\<not> k < length (takeWhile p s)"
  proof
    assume lt: "k < length (takeWhile p s)"
    then have "p (takeWhile p s ! k)" using nth_mem set_takeWhileD by metis
    moreover have "takeWhile p s ! k = s ! k" using lt by (rule takeWhile_nth)
    moreover have "k < length s" using lt length_takeWhile_le[of p s] by simp
    then have "s ! k = hd (drop k s)" by (simp add: hd_drop_conv_nth)
    ultimately show False using assms by simp
  qed
  with assms have "k = length (takeWhile p s)" by simp
  then show ?thesis by (metis takeWhile_eq_take)
qed

lemma take_in_run:
  assumes "m \<le> length (takeWhile p xs)" "c \<in> set (take m xs)"
  shows "p c"
proof -
  have "take m xs = take m (takeWhile p xs)"
    using assms(1) by (metis takeWhile_dropWhile_id take_append diff_is_0_eq take_0 append_Nil2)
  then have "c \<in> set (takeWhile p xs)" using assms(2) by (metis in_set_takeD)
  then show ?thesis by (rule set_takeWhileD[THEN conjunct2])
qed

text \<open>Every way the validator's pattern matches captures, as group 1, the longest run
  of \<open>a-z\<close> at the start of the subject.\<close>

lemma alts_pattern_type:
  assumes "(j, rest', h) \<in> set (alts (pattern rs) (0, s, Map.empty))"
  shows "h 1 = Some (takeWhile is_az s) \<and> takeWhile is_az s \<noteq> []"
proof -
  from assms obtain k where
    k: "1 \<le> k" "k \<le> length (takeWhile is_az s)" and
    t: "(j, rest', h) \<in> set (alts (tail rs) (k, drop k s, [1 \<mapsto> take k s]))"
    by (auto simp: pattern_tail set_give_back)
  from tail_first[OF t] obtain c cs where c: "drop k s = c # cs" "\<not> is_az c"
    using not_az_paren_colon by auto
  have "take k s = takeWhile is_az s" using k c by (intro takeWhile_run)
  moreover have "h 1 = Some (take k s)"
    using alts_keeps_group[OF t groups_tail] by simp
  moreover have "takeWhile is_az s \<noteq> []" using k by auto
  ultimately show ?thesis by simp
qed

lemma re_match_SomeD:
  "re_match r s = Some g \<Longrightarrow> \<exists>j rest. (j, rest, g) \<in> set (alts r (0, s, Map.empty))"
  by (auto simp: re_match_def split: list.splits)

lemma re_match_SomeI:
  "x \<in> set (alts r (0, s, Map.empty)) \<Longrightarrow> \<exists>g. re_match r s = Some g"
  by (cases "alts r (0, s, Map.empty)") (auto simp: re_match_def)

lemma re_match_type:
  "re_match (pattern rs) s = Some g \<Longrightarrow>
     g 1 = Some (takeWhile is_az s) \<and> takeWhile is_az s \<noteq> []"
  using re_match_SomeD alts_pattern_type by blast

subsection \<open>The pattern of the specification\<close>

lemma spec_tail_shape:
  assumes "(j, rest', h) \<in> set (alts spec_tail (i, rest, g))"
  shows "\<exists>body fin. rest = '': '' @ body @ fin \<and> body \<noteq> [] \<and> (\<forall>c\<in>set body. is_dot c) \<and>
           (fin = [] \<or> fin = [newline]) \<and> h = g"
proof -
  from assms obtain xs m where
    r: "rest = CHR '':'' # CHR '' '' # xs" and
    m: "1 \<le> m" "m \<le> length (takeWhile is_dot xs)" and
    e: "drop m xs = [] \<or> drop m xs = [newline]" and h: "h = g"
    by (auto simp: spec_tail_def set_give_back split: list.splits if_splits)
  have "xs = take m xs @ drop m xs" by simp
  moreover have "take m xs \<noteq> []" using m length_takeWhile_le[of is_dot xs] by auto
  moreover have "\<forall>c\<in>set (take m xs). is_dot c" using take_in_run[OF m(2)] by blast
  ultimately show ?thesis
    using r e h by (intro exI[of _ "take m xs"] exI[of _ "drop m xs"]) simp
qed

lemma spec_shape_form:
  assumes "(j, rest', h) \<in> set (alts spec_shape (0, s, Map.empty))"
  shows "\<exists>body fin. s = takeWhile is_az s @ '': '' @ body @ fin \<and> takeWhile is_az s \<noteq> [] \<and>
           body \<noteq> [] \<and> (\<forall>c\<in>set body. is_dot c) \<and> (fin = [] \<or> fin = [newline]) \<and>
           h 1 = Some (takeWhile is_az s)"
proof -
  from assms obtain k where
    k: "1 \<le> k" "k \<le> length (takeWhile is_az s)" and
    t: "(j, rest', h) \<in> set (alts spec_tail (k, drop k s, [1 \<mapsto> take k s]))"
    by (auto simp: spec_shape_def set_give_back)
  from spec_tail_shape[OF t] obtain body fin where
    b: "drop k s = '': '' @ body @ fin" "body \<noteq> []" "\<forall>c\<in>set body. is_dot c"
       "fin = [] \<or> fin = [newline]" and h: "h = [1 \<mapsto> take k s]"
    by blast
  have "take k s = takeWhile is_az s"
    using k(2) b(1) not_az_paren_colon(2) by (intro takeWhile_run[where c = "CHR '':''"]) simp_all
  moreover have "s = take k s @ drop k s" by simp
  moreover have "takeWhile is_az s \<noteq> []" using k by auto
  ultimately show ?thesis using b h by (metis fun_upd_same)
qed

subsection \<open>Lower-casing\<close>

lemma lower_char_az: "is_az c \<Longrightarrow> lower_char c = c"
  by (simp add: lower_char_def is_az_def Let_def)

lemma lower_az: "\<forall>c\<in>set xs. is_az c \<Longrightarrow> lower xs = xs"
  by (simp add: lower_def lower_char_az map_idI)

lemma lower_char_dot: "is_dot c \<Longrightarrow> is_dot (lower_char c)"
proof -
  have "char_of (of_char c + 32 :: nat) \<noteq> CHR 0x0A"
    if "(of_char c :: nat) \<le> 222" "65 \<le> (of_char c :: nat)"
  proof
    assume "char_of (of_char c + 32 :: nat) = CHR 0x0A"
    then have "(of_char (char_of (of_char c + 32 :: nat)) :: nat) = of_char (CHR 0x0A)"
      by simp
    then have "(of_char c + 32 :: nat) mod 256 = 10" by simp
    with that show False by simp
  qed
  then show "is_dot c \<Longrightarrow> is_dot (lower_char c)"
    by (auto simp: is_dot_def lower_char_def Let_def newline_def)
qed

lemma lower_append: "lower (xs @ ys) = lower xs @ lower ys"
  by (simp add: lower_def)

lemma lower_Cons: "lower (c # cs) = lower_char c # lower cs" "lower [] = []"
  by (simp_all add: lower_def)

lemma lower_char_fixed:
  "lower_char CHR '':'' = CHR '':''" "lower_char CHR '' '' = CHR '' ''"
  "lower_char newline = newline"
  by (simp_all add: lower_char_def newline_def)

lemma upper_not_az: "is_upper c \<Longrightarrow> \<not> is_az c"
  by (auto simp: is_upper_def is_az_def Let_def)

subsection \<open>A message of the simple form matches the validator's pattern\<close>

lemma pattern_any_matches:
  assumes "ty \<noteq> []" "\<forall>c\<in>set ty. is_az c" "body \<noteq> []" "\<forall>c\<in>set body. is_dot c"
    "fin = [] \<or> fin = [newline]"
  shows "(Suc (Suc (length ty)) + length body, fin, [1 \<mapsto> ty]) \<in>
           set (alts pattern_any (0, ty @ CHR '':'' # CHR '' '' # body @ fin, Map.empty))"
proof -
  let ?s = "ty @ CHR '':'' # CHR '' '' # body @ fin"
  let ?g = "[1 \<mapsto> ty]"
  let ?n = "length ty"
  have tw: "takeWhile is_az ?s = ty"
    using assms(2) not_az_paren_colon(2) by simp
  have s0: "(0, ?s, Map.empty) \<in> set (alts Bol (0, ?s, Map.empty))"
    by simp
  have s1: "(?n, CHR '':'' # CHR '' '' # body @ fin, ?g) \<in>
      set (alts (Group 1 (Plus is_az)) (0, ?s, Map.empty))"
    using assms(1) by (simp add: tw image_iff set_give_back Suc_le_eq)
  have s2: "(?n, CHR '':'' # CHR '' '' # body @ fin, ?g) \<in>
      set (alts (Opt G) (?n, CHR '':'' # CHR '' '' # body @ fin, ?g))" for G
    by simp
  have s3: "(Suc ?n, CHR '' '' # body @ fin, ?g) \<in>
      set (alts (Lit CHR '':'') (?n, CHR '':'' # CHR '' '' # body @ fin, ?g))"
    by simp
  have sp: "is_space CHR '' ''" by (simp add: is_space_def)
  have s4: "(Suc (Suc ?n), body @ fin, ?g) \<in>
      set (alts (Plus is_space) (Suc ?n, CHR '' '' # body @ fin, ?g))"
    using sp by (simp add: image_iff set_give_back)
  have "takeWhile is_dot (body @ fin) = body @ takeWhile is_dot fin"
    using assms(4) by simp
  then have s5: "(Suc (Suc ?n) + length body, fin, ?g) \<in>
      set (alts (Plus is_dot) (Suc (Suc ?n), body @ fin, ?g))"
    using assms(3) by (simp add: image_iff set_give_back Suc_le_eq)
  have s6: "(Suc (Suc ?n) + length body, fin, ?g) \<in>
      set (alts Eol (Suc (Suc ?n) + length body, fin, ?g))"
    using assms(5) by auto
  show ?thesis
    unfolding pattern_any_def
    by (intro alts_SeqI[OF s0] alts_SeqI[OF s1] alts_SeqI[OF s2] alts_SeqI[OF s3]
          alts_SeqI[OF s4] alts_SeqI[OF s5] s6)
qed

lemma spec_shape_accepted:
  assumes "spec_type_token message = Some ty"
  shows "\<exists>h. re_match (pattern False) (lower message) = Some h \<and> h 1 = Some ty"
proof -
  from assms obtain g where g: "re_match spec_shape message = Some g" "g 1 = Some ty"
    by (auto simp: spec_type_token_def split: option.splits)
  from re_match_SomeD[OF g(1)] spec_shape_form obtain body fin where
    f: "message = takeWhile is_az message @ '': '' @ body @ fin"
       "takeWhile is_az message \<noteq> []"
       "body \<noteq> []" "\<forall>c\<in>set body. is_dot c" "fin = [] \<or> fin = [newline]"
       "g 1 = Some (takeWhile is_az message)"
    by blast
  from f(6) g(2) have ty: "takeWhile is_az message = ty" by simp
  have az: "\<forall>c\<in>set ty. is_az c" using ty set_takeWhileD by metis
  have "lower message = lower (ty @ '': '' @ body @ fin)" using f(1) ty by simp
  also have "\<dots> = ty @ '': '' @ lower body @ fin"
    using f(5) az by (auto simp: lower_append lower_az lower_Cons lower_char_fixed)
  finally have lm: "lower message = ty @ CHR '':'' # CHR '' '' # lower body @ fin" by simp
  have "lower body \<noteq> []" "\<forall>c\<in>set (lower body). is_dot c"
    using f(3,4) by (auto simp: lower_def lower_char_dot)
  from pattern_any_matches[OF _ az this f(5)] f(2) ty
  obtain x where "x \<in> set (alts (pattern False) (0, lower message, Map.empty))"
    unfolding lm pattern_def by auto
  from re_match_SomeI[OF this] obtain h where
    h: "re_match (pattern False) (lower message) = Some h"
    by blast
  from re_match_type[OF h] have "h 1 = Some (takeWhile is_az (lower message))" by simp
  also have "takeWhile is_az (lower message) = ty"
    unfolding lm using az not_az_paren_colon(2) by simp
  finally show ?thesis using h by blast
qed

section \<open>Properties of the commit validator\<close>

text \<open>
  C1. A commit message that matches \<open>^[a-z]+: .+$\<close> and whose type token is in the list
  of allowed types is valid when no scope is required: the validator returns
  \<open>(True, "")\<close>.
\<close>

theorem C1_simple_commit_accepted:
  assumes "spec_type_token message = Some ty" "ty \<in> set allowed_types"
  shows "validate_conventional_commit message allowed_types False = (True, [])"
proof -
  from spec_shape_accepted[OF assms(1)] obtain h where
    "re_match (pattern False) (lower message) = Some h" "h 1 = Some ty" by blast
  then show ?thesis using assms(2)
    by (simp add: validate_conventional_commit_def not_in_def)
qed

theorem C1_simple_commit_accepted_witness:
  "spec_type_token ''feat: add x'' = Some ''feat'' \<and> ''feat'' \<in> set [''feat'', ''fix''] \<and>
   validate_conventional_commit ''feat: add x'' [''feat'', ''fix''] False = (True, [])"
proof -
  have m: "spec_type_token ''feat: add x'' = Some ''feat''"
    by (simp add: spec_type_token_def re_match_def spec_shape_def spec_tail_def
        give_back_def is_az_def is_dot_def newline_def)
  have a: "''feat'' \<in> set [''feat'', ''fix'']" by simp
  show ?thesis using m a C1_simple_commit_accepted[OF m a] by simp
qed

text \<open>
  C5. A commit message that fails the shape check gets one error, the format error of
  the mode in force, whatever the list of allowed types is; and the format error is
  never a "type ... not in allowed types" error.
\<close>

theorem C5_shape_failure_is_format_error:
  assumes "re_match (pattern require_scope) (lower message) = None"
  shows "validate_conventional_commit message allowed_types require_scope =
           (False, format_error require_scope) \<and>
         (\<forall>t ts. format_error require_scope \<noteq> type_error t ts)"
  using assms
  by (simp add: validate_conventional_commit_def format_error_def type_error_def)

theorem C5_shape_failure_is_format_error_witness:
  "re_match (pattern False) (lower ''oops'') = None \<and>
   validate_conventional_commit ''oops'' [''feat''] False = (False, format_error False) \<and>
   format_error False \<noteq> type_error (Some ''oops'') [''feat'']"
proof -
  have m: "re_match (pattern False) (lower ''oops'') = None"
    by (simp add: re_match_def pattern_def pattern_any_def give_back_def is_az_def
        lower_def lower_char_def)
  show ?thesis using m C5_shape_failure_is_format_error[OF m, of "[''feat'']"] by simp
qed

text \<open>
  C6. With an empty list of allowed types a commit message whose shape matches is valid,
  whatever its type token is, also when the empty list comes from the configuration.
\<close>

theorem C6_empty_allowed_types_accepts:
  assumes "re_match (pattern require_scope) (lower message) = Some m"
  shows "validate_conventional_commit message [] require_scope = (True, []) \<and>
         validate_commits [message]
           \<lparr>c_allowed_types = Some [], c_require_scope = Some require_scope\<rparr> = []"
  using assms
  by (simp add: validate_conventional_commit_def validate_commits_def get_or_def)

theorem C6_empty_allowed_types_accepts_witness:
  "re_match (pattern False) (lower ''Wip: x'') \<noteq> None \<and>
   validate_conventional_commit ''Wip: x'' [] False = (True, [])"
proof -
  obtain m where m: "re_match (pattern False) (lower ''Wip: x'') = Some m"
    by (simp add: re_match_def pattern_def pattern_any_def give_back_def is_az_def
        is_space_def is_dot_def newline_def lower_def lower_char_def)
  show ?thesis using m C6_empty_allowed_types_accepts[OF m] by simp
qed

text \<open>
  C10. The type token the validator extracts is made of the letters \<open>a-z\<close> only, since
  the message is lower-cased before it is matched. So an allowed type with an upper-case
  letter is never the type token, and when the list of allowed types has entries and
  every entry has an upper-case letter, every commit message whose shape matches is
  rejected with the "type ... not in allowed types" error.
\<close>

theorem C10_uppercase_types_never_match:
  assumes "re_match (pattern require_scope) (lower message) = Some m"
  shows "(\<exists>t. m 1 = Some t \<and> t \<noteq> [] \<and> (\<forall>c\<in>set t. is_az c \<and> \<not> is_upper c)) \<and>
         (\<forall>e. (\<exists>c\<in>set e. is_upper c) \<longrightarrow> m 1 \<noteq> Some e) \<and>
         (allowed_types \<noteq> [] \<and> (\<forall>e\<in>set allowed_types. \<exists>c\<in>set e. is_upper c) \<longrightarrow>
            validate_conventional_commit message allowed_types require_scope =
              (False, type_error (m 1) allowed_types))"
proof -
  let ?t = "takeWhile is_az (lower message)"
  from re_match_type[OF assms] have t: "m 1 = Some ?t" "?t \<noteq> []" by simp_all
  have az: "\<forall>c\<in>set ?t. is_az c" using set_takeWhileD by metis
  then have lo: "\<forall>c\<in>set ?t. is_az c \<and> \<not> is_upper c" using upper_not_az by blast
  have ne: "m 1 \<noteq> Some e" if "\<exists>c\<in>set e. is_upper c" for e
    using that t(1) lo by auto
  have "validate_conventional_commit message allowed_types require_scope =
          (False, type_error (m 1) allowed_types)"
    if "allowed_types \<noteq> []" "\<forall>e\<in>set allowed_types. \<exists>c\<in>set e. is_upper c"
  proof -
    have "?t \<notin> set allowed_types" using that(2) lo by blast
    then show ?thesis using assms t(1) that(1)
      by (simp add: validate_conventional_commit_def not_in_def)
  qed
  with t lo ne show ?thesis by blast
qed

theorem C10_uppercase_types_never_match_witness:
  "re_match (pattern False) (lower ''Feat: x'') \<noteq> None \<and>
   [''Feat'', ''FIX''] \<noteq> [] \<and> (\<exists>c\<in>set ''Feat''. is_upper c) \<and> (\<exists>c\<in>set ''FIX''. is_upper c) \<and>
   validate_conventional_commit ''Feat: x'' [''Feat'', ''FIX''] False =
     (False, type_error (Some ''feat'') [''Feat'', ''FIX''])"
proof -
  obtain m where m: "re_match (pattern False) (lower ''Feat: x'') = Some m"
    by (simp add: re_match_def pattern_def pattern_any_def give_back_def is_az_def
        is_space_def is_dot_def newline_def lower_def lower_char_def)
  have t: "takeWhile is_az (lower ''Feat: x'') = ''feat''"
    by code_simp
  have u: "\<forall>e\<in>set [''Feat'', ''FIX'']. \<exists>c\<in>set e. is_upper c"
    by (simp add: is_upper_def)
  have "m 1 = Some ''feat''" using re_match_type[OF m] t by simp
  then show ?thesis using m u C10_uppercase_types_never_match[OF m, of "[''Feat'', ''FIX'']"]
    by simp
qed

section \<open>Properties of the validator hook\<close>

text \<open>When the \<open>log\<close> command that the reader of the history runs fails, the reader
  reports failure.\<close>

lemma get_commits_log_fails:
  assumes "git [''describe'', ''--tags'', ''--abbrev=0''] project_root w =
             (Completed rc out err, w1)"
    "command_fails git
       (if rc = 0 \<and> strip out \<noteq> []
        then [''log'', strip out @ ''..HEAD'', ''--pretty=format:%s'']
        else [''log'', ''--pretty=format:%s''])
       project_root w1"
  shows "fst (get_commits_since_last_tag git project_root w) = Inr (False, [])"
proof -
  have g: "\<exists>e w2. run_git_command git args project_root w1 = (Inr (False, e), w2)"
    if "command_fails git args project_root w1" for args
    using that
    by (cases "git args project_root w1")
       (auto simp: command_fails_def run_git_command_def split: proc.splits)
  have k: "fst (case run_git_command git args project_root w1 of
               (Inl e, w2) \<Rightarrow> (Inl e, w2)
             | (Inr (success, commits), w2) \<Rightarrow>
                 if \<not> success then (Inr (False, []), w2)
                 else (Inr (True, map strip (filter (\<lambda>c. strip c \<noteq> [])
                         (split_newline commits))), w2)) = Inr (False, [])"
    if "command_fails git args project_root w1" for args
    using g[OF that] by auto
  have r: "run_git_command git [''describe'', ''--tags'', ''--abbrev=0''] project_root w =
      (Inr (rc = 0, if rc = 0 then strip out else strip err), w1)"
    by (simp add: run_git_command_def assms(1))
  show ?thesis
  proof (cases "rc = 0 \<and> strip out \<noteq> []")
    case True
    with assms(2) have
      "command_fails git [''log'', strip out @ ''..HEAD'', ''--pretty=format:%s''] project_root w1"
      by simp
    from k[OF this] True show ?thesis
      unfolding get_commits_since_last_tag_def r by simp
  next
    case False
    with assms(2) have
      "command_fails git [''log'', ''--pretty=format:%s''] project_root w1"
      by auto
    from k[OF this] False show ?thesis
      unfolding get_commits_since_last_tag_def r by auto
  qed
qed

text \<open>
  C4. When the \<open>log\<close> command that the hook runs on the project root fails (the
  directory is not a repository, say), the validator hook answers with a failure and
  exit code 1. The message of that failure is "Failed to retrieve git commits. Ensure
  you are in a git repository.", not "Failed to retrieve commit history.". The command
  the hook runs is \<open>log <tag>..HEAD\<close> when \<open>describe\<close> gave a tag and the plain \<open>log\<close>
  otherwise; no other \<open>log\<close> command has to fail.
\<close>

theorem C4_log_failure_message:
  assumes "project_root \<noteq> []"
    "git [''describe'', ''--tags'', ''--abbrev=0''] project_root w =
       (Completed rc out err, w1)"
    "command_fails git
       (if rc = 0 \<and> strip out \<noteq> []
        then [''log'', strip out @ ''..HEAD'', ''--pretty=format:%s'']
        else [''log'', ''--pretty=format:%s''])
       project_root w1"
  shows "fst (validator_main git
           (Parsed \<lparr>v_project_root = Some project_root, v_config = config\<rparr>) w) =
         (\<lparr>r_success = False,
           r_message = ''Failed to retrieve git commits. Ensure you are in a git repository.'',
           r_data = []\<rparr>, 1)"
proof -
  from get_commits_log_fails[OF assms(2,3)] obtain w' where
    "get_commits_since_last_tag git project_root w = (Inr (False, []), w')"
    by (metis prod.collapse)
  then show ?thesis using assms(1)
    by (simp add: validator_main_def falsy_def get_or_def failure_def)
qed

theorem C4_log_failure_message_witness:
  "sample_git [''describe'', ''--tags'', ''--abbrev=0''] ''/tmp'' no_repo =
     (Completed 128 [] ''fatal: not a git repository'', no_repo) \<and>
   command_fails sample_git [''log'', ''--pretty=format:%s''] ''/tmp'' no_repo \<and>
   fst (validator_main sample_git
     (Parsed \<lparr>v_project_root = Some ''/tmp'', v_config = None\<rparr>) no_repo) =
   (\<lparr>r_success = False,
     r_message = ''Failed to retrieve git commits. Ensure you are in a git repository.'',
     r_data = []\<rparr>, 1)"
proof -
  have d: "sample_git [''describe'', ''--tags'', ''--abbrev=0''] ''/tmp'' no_repo =
             (Completed 128 [] ''fatal: not a git repository'', no_repo)"
    by (simp add: sample_git_def no_repo_def)
  have l: "command_fails sample_git [''log'', ''--pretty=format:%s''] ''/tmp'' no_repo"
    by (simp add: sample_git_def no_repo_def command_fails_def)
  have l': "command_fails sample_git
       (if (128::int) = 0 \<and> strip [] \<noteq> []
        then [''log'', strip [] @ ''..HEAD'', ''--pretty=format:%s'']
        else [''log'', ''--pretty=format:%s''])
       ''/tmp'' no_repo"
    using l by simp
  have "fst (validator_main sample_git
     (Parsed \<lparr>v_project_root = Some ''/tmp'', v_config = None\<rparr>) no_repo) =
   (\<lparr>r_success = False,
     r_message = ''Failed to retrieve git commits. Ensure you are in a git repository.'',
     r_data = []\<rparr>, 1)"
    using C4_log_failure_message[OF _ d l', of None] by simp
  with d l show ?thesis by simp
qed

text \<open>On a directory that is not a repository the \<open>log\<close> command fails and the message
  of the hook is not "Failed to retrieve commit history.".\<close>

theorem C4_counterexample:
  "command_fails sample_git [''log'', ''--pretty=format:%s''] ''/tmp'' no_repo \<and>
   r_message (fst (fst (validator_main sample_git
     (Parsed \<lparr>v_project_root = Some ''/tmp'', v_config = None\<rparr>) no_repo))) \<noteq>
   ''Failed to retrieve commit history.''"
  by code_simp

text \<open>
  C7. When the reader of the history succeeds with no commits, the hook answers with
  success, the message "No commits to validate" and \<open>commits_checked = 0\<close>, and exit
  code 0; no run on a history that has commits gives that answer.
\<close>

theorem C7_empty_history_succeeds:
  assumes "project_root \<noteq> []"
    "get_commits_since_last_tag git project_root w = (Inr (True, []), w')"
  shows "fst (validator_main git
           (Parsed \<lparr>v_project_root = Some project_root, v_config = config\<rparr>) w) =
         (\<lparr>r_success = True, r_message = ''No commits to validate'',
           r_data = [(''commits_checked'', JInt 0)]\<rparr>, 0) \<and>
         (\<forall>git2 root2 config2 w2 commits w2'.
            root2 \<noteq> [] \<and>
            get_commits_since_last_tag git2 root2 w2 = (Inr (True, commits), w2') \<and>
            commits \<noteq> [] \<longrightarrow>
            fst (validator_main git2
              (Parsed \<lparr>v_project_root = Some root2, v_config = config2\<rparr>) w2) \<noteq>
            (\<lparr>r_success = True, r_message = ''No commits to validate'',
              r_data = [(''commits_checked'', JInt 0)]\<rparr>, 0))"
  using assms
  by (auto simp: validator_main_def falsy_def get_or_def Let_def)

theorem C7_empty_history_succeeds_witness:
  "get_commits_since_last_tag sample_git ''/repo'' fresh_repo = (Inr (True, []), fresh_repo) \<and>
   fst (validator_main sample_git
     (Parsed \<lparr>v_project_root = Some ''/repo'', v_config = None\<rparr>) fresh_repo) =
   (\<lparr>r_success = True, r_message = ''No commits to validate'',
     r_data = [(''commits_checked'', JInt 0)]\<rparr>, 0)"
proof -
  have g: "get_commits_since_last_tag sample_git ''/repo'' fresh_repo =
             (Inr (True, []), fresh_repo)"
    by code_simp
  have "fst (validator_main sample_git
     (Parsed \<lparr>v_project_root = Some ''/repo'', v_config = None\<rparr>) fresh_repo) =
   (\<lparr>r_success = True, r_message = ''No commits to validate'',
     r_data = [(''commits_checked'', JInt 0)]\<rparr>, 0)"
    using C7_empty_history_succeeds[OF _ g, of None, THEN conjunct1] by simp
  with g show ?thesis by simp
qed

text \<open>
  C9. A required field that is present but empty is reported as missing, and the hook
  stops there: \<open>project_root\<close> in the validator, \<open>version\<close> in the tagger, and
  \<open>project_root\<close> in the tagger when \<open>version\<close> is present and not empty. The tagger
  tests \<open>version\<close> first: with \<open>version\<close> absent or empty it names \<open>version\<close>,
  whatever \<open>project_root\<close> is.
\<close>

theorem C9_empty_field_reported_missing:
  "(v_project_root vreq = Some [] \<longrightarrow>
      validator_main git (Parsed vreq) w =
        ((\<lparr>r_success = False, r_message = ''Missing required field: project_root'',
           r_data = []\<rparr>, 1), w)) \<and>
   (falsy (t_version treq) \<longrightarrow>
      tagger_main git (Parsed treq) w =
        ((\<lparr>r_success = False, r_message = ''Missing required field: version'',
           r_data = []\<rparr>, 1), w)) \<and>
   (t_project_root treq = Some [] \<and> \<not> falsy (t_version treq) \<longrightarrow>
      tagger_main git (Parsed treq) w =
        ((\<lparr>r_success = False, r_message = ''Missing required field: project_root'',
           r_data = []\<rparr>, 1), w))"
  by (simp add: validator_main_def tagger_main_def falsy_def failure_def)

theorem C9_empty_field_reported_missing_witness:
  "validator_main sample_git (Parsed \<lparr>v_project_root = Some [], v_config = None\<rparr>) fresh_repo =
     ((\<lparr>r_success = False, r_message = ''Missing required field: project_root'',
        r_data = []\<rparr>, 1), fresh_repo) \<and>
   tagger_main sample_git
     (Parsed \<lparr>t_version = Some [], t_project_root = Some ''/repo'', t_config = None\<rparr>)
     fresh_repo =
     ((\<lparr>r_success = False, r_message = ''Missing required field: version'',
        r_data = []\<rparr>, 1), fresh_repo) \<and>
   tagger_main sample_git
     (Parsed \<lparr>t_version = None, t_project_root = Some [], t_config = None\<rparr>)
     fresh_repo =
     ((\<lparr>r_success = False, r_message = ''Missing required field: version'',
        r_data = []\<rparr>, 1), fresh_repo) \<and>
   tagger_main sample_git
     (Parsed \<lparr>t_version = Some ''1.2.0'', t_project_root = Some [], t_config = None\<rparr>)
     fresh_repo =
     ((\<lparr>r_success = False, r_message = ''Missing required field: project_root'',
        r_data = []\<rparr>, 1), fresh_repo)"
proof -
  have a: "validator_main sample_git
      (Parsed \<lparr>v_project_root = Some [], v_config = None\<rparr>) fresh_repo =
     ((\<lparr>r_success = False, r_message = ''Missing required field: project_root'',
        r_data = []\<rparr>, 1), fresh_repo)"
    using C9_empty_field_reported_missing
      [of "\<lparr>v_project_root = Some [], v_config = None\<rparr>" sample_git fresh_repo,
       THEN conjunct1]
    by simp
  have b: "tagger_main sample_git
     (Parsed \<lparr>t_version = Some [], t_project_root = Some ''/repo'', t_config = None\<rparr>)
     fresh_repo =
     ((\<lparr>r_success = False, r_message = ''Missing required field: version'',
        r_data = []\<rparr>, 1), fresh_repo)"
    using C9_empty_field_reported_missing
      [of _ sample_git fresh_repo
          "\<lparr>t_version = Some [], t_project_root = Some ''/repo'', t_config = None\<rparr>",
       THEN conjunct2, THEN conjunct1]
    by (simp add: falsy_def)
  have d: "tagger_main sample_git
     (Parsed \<lparr>t_version = None, t_project_root = Some [], t_config = None\<rparr>)
     fresh_repo =
     ((\<lparr>r_success = False, r_message = ''Missing required field: version'',
        r_data = []\<rparr>, 1), fresh_repo)"
    using C9_empty_field_reported_missing
      [of _ sample_git fresh_repo
          "\<lparr>t_version = None, t_project_root = Some [], t_config = None\<rparr>",
       THEN conjunct2, THEN conjunct1]
    by (simp add: falsy_def)
  have c: "tagger_main sample_git
     (Parsed \<lparr>t_version = Some ''1.2.0'', t_project_root = Some [], t_config = None\<rparr>)
     fresh_repo =
     ((\<lparr>r_success = False, r_message = ''Missing required field: project_root'',
        r_data = []\<rparr>, 1), fresh_repo)"
    using C9_empty_field_reported_missing
      [of _ sample_git fresh_repo
          "\<lparr>t_version = Some ''1.2.0'', t_project_root = Some [], t_config = None\<rparr>",
       THEN conjunct2, THEN conjunct2]
    by (simp add: falsy_def)
  show ?thesis using a b d c by simp
qed

text \<open>With both fields empty the tagger names \<open>version\<close>: the empty \<open>project_root\<close> is
  not the field it reports.\<close>

theorem C9_counterexample:
  "t_project_root \<lparr>t_version = Some [], t_project_root = Some [], t_config = None\<rparr> = Some [] \<and>
   r_message (fst (fst (tagger_main sample_git
     (Parsed \<lparr>t_version = Some [], t_project_root = Some [], t_config = None\<rparr>) fresh_repo))) =
     ''Missing required field: version'' \<and>
   r_message (fst (fst (tagger_main sample_git
     (Parsed \<lparr>t_version = Some [], t_project_root = Some [], t_config = None\<rparr>) fresh_repo))) \<noteq>
     ''Missing required field: project_root''"
  by (simp add: tagger_main_def falsy_def failure_def)

section \<open>Properties of the tagger hook\<close>

lemma tag_listedD:
  assumes "tag_listed git root name w" "listing_is_query git root name w"
  shows "\<exists>out err. git [''tag'', ''-l'', name] root w = (Completed 0 out err, w) \<and> strip out \<noteq> []"
  using assms
  by (cases "git [''tag'', ''-l'', name] root w")
     (auto simp: tag_listed_def listing_is_query_def split: proc.splits)

lemma not_tag_listedD:
  assumes "\<not> tag_listed git root name w" "listing_is_query git root name w"
  shows "\<exists>rc out err. git [''tag'', ''-l'', name] root w = (Completed rc out err, w) \<and>
           (rc = 0 \<longrightarrow> strip out = [])"
  using assms
  by (cases "git [''tag'', ''-l'', name] root w")
     (auto simp: tag_listed_def listing_is_query_def split: proc.splits)

lemma create_tag_not_listed:
  assumes "\<not> tag_listed git root (tag_name_of version config) w"
    "listing_is_query git root (tag_name_of version config) w"
  shows "create_tag git version config root w = create_and_push git version config root w"
proof -
  from not_tag_listedD[OF assms] obtain rc out err where
    l: "git [''tag'', ''-l'', tag_name_of version config] root w = (Completed rc out err, w)"
       "rc = 0 \<longrightarrow> strip out = []"
    by blast
  show ?thesis using l
    by (simp add: create_tag_def run_git_command_def l(1) Let_def)
qed

text \<open>
  C2. When a tag named prefix + version already exists, \<open>create_tag\<close> fails with the
  message "Tag <name> already exists" and runs nothing but the query that lists the
  tag: it creates no tag and pushes nothing, and the world is as it was.
\<close>

theorem C2_existing_tag_refused:
  assumes "tag_listed git project_root (get_or (c_prefix config) ''v'' @ version) w"
    "listing_is_query git project_root (get_or (c_prefix config) ''v'' @ version) w"
  shows "create_tag git version config project_root w =
           (Inr (False, ''Tag '' @ (get_or (c_prefix config) ''v'' @ version) @ '' already exists''), w)"
proof -
  from tag_listedD[OF assms] obtain out err where
    l: "git [''tag'', ''-l'', get_or (c_prefix config) ''v'' @ version] project_root w =
          (Completed 0 out err, w)" "strip out \<noteq> []"
    by blast
  show ?thesis using l(2)
    by (simp add: create_tag_def tag_name_of_def run_git_command_def l(1))
qed

theorem C2_existing_tag_refused_witness:
  "tag_listed sample_git ''/repo'' ''v1.0.0'' offline_repo \<and>
   listing_is_query sample_git ''/repo'' ''v1.0.0'' offline_repo \<and>
   create_tag sample_git ''1.0.0'' no_options ''/repo'' offline_repo =
     (Inr (False, ''Tag v1.0.0 already exists''), offline_repo)"
proof -
  have n: "get_or (c_prefix no_options) ''v'' @ ''1.0.0'' = ''v1.0.0''"
    by (simp add: get_or_def no_options_def)
  have l: "tag_listed sample_git ''/repo'' ''v1.0.0'' offline_repo"
    by code_simp
  have q: "listing_is_query sample_git ''/repo'' ''v1.0.0'' offline_repo"
    by code_simp
  show ?thesis
    using l q C2_existing_tag_refused[of sample_git "''/repo''" no_options "''1.0.0''" offline_repo]
    by (simp add: n)
qed

text \<open>
  C3. When the tag does not exist yet, its creation succeeds, a push is requested and
  the push fails, \<open>create_tag\<close> fails with the message "Tag created but failed to push:
  <error output>" and runs nothing after the push: the tag that the creation made is
  still there in the world it returns.
\<close>

theorem C3_push_failure_keeps_tag:
  assumes "\<not> tag_listed git project_root (tag_name_of version config) w"
    "listing_is_query git project_root (tag_name_of version config) w"
    "git (tag_args_of version config) project_root w = (Completed 0 out1 err1, w1)"
    "c_push config = Some True"
    "git [''push'', ''origin'', tag_name_of version config] project_root w1 =
       (Completed rc out2 err2, w2)"
    "rc \<noteq> 0"
    "tag_listed git project_root (tag_name_of version config) w1"
    "tag_listed git project_root (tag_name_of version config) w2 =
       tag_listed git project_root (tag_name_of version config) w1"
  shows "create_tag git version config project_root w =
           (Inr (False, ''Tag created but failed to push: '' @ strip err2), w2) \<and>
         tag_listed git project_root (tag_name_of version config) w2"
proof -
  have "create_and_push git version config project_root w =
          (Inr (False, ''Tag created but failed to push: '' @ strip err2), w2)"
    using assms(4,6)
    by (simp add: create_and_push_def get_or_def run_git_command_def assms(3)
        run_git_command_def assms(5))
  then show ?thesis using create_tag_not_listed[OF assms(1,2)] assms(7,8) by simp
qed

theorem C3_push_failure_keeps_tag_witness:
  "\<not> tag_listed sample_git ''/repo'' ''release-1.2.0'' offline_repo \<and>
   create_tag sample_git ''1.2.0'' release_options ''/repo'' offline_repo =
     (Inr (False, ''Tag created but failed to push: error: failed to push some refs''),
      offline_repo\<lparr>tags := [''release-1.2.0'', ''v1.0.0'']\<rparr>) \<and>
   tag_listed sample_git ''/repo'' ''release-1.2.0''
     (offline_repo\<lparr>tags := [''release-1.2.0'', ''v1.0.0'']\<rparr>)"
proof -
  let ?w1 = "offline_repo\<lparr>tags := [''release-1.2.0'', ''v1.0.0'']\<rparr>"
  have n: "tag_name_of ''1.2.0'' release_options = ''release-1.2.0''"
    by (simp add: tag_name_of_def get_or_def release_options_def)
  have l: "\<not> tag_listed sample_git ''/repo'' ''release-1.2.0'' offline_repo"
    by code_simp
  have q: "listing_is_query sample_git ''/repo'' ''release-1.2.0'' offline_repo"
    by code_simp
  have c: "sample_git (tag_args_of ''1.2.0'' release_options) ''/repo'' offline_repo =
             (Completed 0 [] [], ?w1)"
    by code_simp
  have p: "sample_git [''push'', ''origin'', ''release-1.2.0''] ''/repo'' ?w1 =
             (Completed 1 [] ''error: failed to push some refs'', ?w1)"
    by code_simp
  have l1: "tag_listed sample_git ''/repo'' ''release-1.2.0'' ?w1"
    by code_simp
  have s: "strip ''error: failed to push some refs'' = ''error: failed to push some refs''"
    by code_simp
  have "c_push release_options = Some True" by (simp add: release_options_def)
  with l q c p l1 s show ?thesis
    using C3_push_failure_keeps_tag[of sample_git "''/repo''" "''1.2.0''" release_options
        offline_repo "[]" "[]" ?w1 1 "[]" "''error: failed to push some refs''" ?w1]
    by (simp add: n)
qed

text \<open>
  C8. The tag name is the prefix (\<open>v\<close> unless the configuration gives one) followed by
  the version. When the tag does not exist yet and its creation succeeds, \<open>create_tag\<close>
  succeeds with "Created tag <name>" if no push is requested, and with "Created and
  pushed tag <name>" if a push is requested and succeeds.
\<close>

theorem C8_success_messages:
  assumes "\<not> tag_listed git project_root (get_or (c_prefix config) ''v'' @ version) w"
    "listing_is_query git project_root (get_or (c_prefix config) ''v'' @ version) w"
    "git (tag_args_of version config) project_root w = (Completed 0 out1 err1, w1)"
    "get_or (c_push config) False \<longrightarrow>
       git [''push'', ''origin'', get_or (c_prefix config) ''v'' @ version] project_root w1 =
         (Completed 0 out2 err2, w2)"
  shows "tag_name_of version config = get_or (c_prefix config) ''v'' @ version \<and>
         create_tag git version config project_root w =
           (if get_or (c_push config) False
            then (Inr (True, ''Created and pushed tag '' @ get_or (c_prefix config) ''v'' @ version), w2)
            else (Inr (True, ''Created tag '' @ get_or (c_prefix config) ''v'' @ version), w1))"
proof -
  have n: "tag_name_of version config = get_or (c_prefix config) ''v'' @ version"
    by (simp add: tag_name_of_def)
  have "create_and_push git version config project_root w =
           (if get_or (c_push config) False
            then (Inr (True, ''Created and pushed tag '' @ get_or (c_prefix config) ''v'' @ version), w2)
            else (Inr (True, ''Created tag '' @ get_or (c_prefix config) ''v'' @ version), w1))"
  proof (cases "get_or (c_push config) False")
    case True
    with assms(4) have p:
      "git [''push'', ''origin'', get_or (c_prefix config) ''v'' @ version] project_root w1 =
         (Completed 0 out2 err2, w2)" by simp
    show ?thesis using True
      by (simp add: create_and_push_def run_git_command_def assms(3) p n Let_def)
  next
    case False
    then show ?thesis
      by (simp add: create_and_push_def run_git_command_def assms(3) n)
  qed
  then show ?thesis using create_tag_not_listed[of git project_root version config w] assms(1,2) n
    by simp
qed

theorem C8_success_messages_witness:
  "create_tag sample_git ''1.2.0'' release_options ''/repo'' fresh_repo =
     (Inr (True, ''Created and pushed tag release-1.2.0''),
      fresh_repo\<lparr>tags := [''release-1.2.0'']\<rparr>) \<and>
   create_tag sample_git ''1.1.0'' no_options ''/repo'' offline_repo =
     (Inr (True, ''Created tag v1.1.0''), offline_repo\<lparr>tags := [''v1.1.0'', ''v1.0.0'']\<rparr>)"
proof -
  let ?w1 = "fresh_repo\<lparr>tags := [''release-1.2.0'']\<rparr>"
  let ?w2 = "offline_repo\<lparr>tags := [''v1.1.0'', ''v1.0.0'']\<rparr>"
  have n: "get_or (c_prefix release_options) ''v'' @ ''1.2.0'' = ''release-1.2.0''"
    "get_or (c_prefix no_options) ''v'' @ ''1.1.0'' = ''v1.1.0''"
    "get_or (c_push release_options) False" "\<not> get_or (c_push no_options) False"
    by (simp_all add: get_or_def release_options_def no_options_def)
  have l: "\<not> tag_listed sample_git ''/repo'' ''release-1.2.0'' fresh_repo"
    "\<not> tag_listed sample_git ''/repo'' ''v1.1.0'' offline_repo"
    by code_simp+
  have q: "listing_is_query sample_git ''/repo'' ''release-1.2.0'' fresh_repo"
    "listing_is_query sample_git ''/repo'' ''v1.1.0'' offline_repo"
    by code_simp+
  have c: "sample_git (tag_args_of ''1.2.0'' release_options) ''/repo'' fresh_repo =
             (Completed 0 [] [], ?w1)"
    "sample_git (tag_args_of ''1.1.0'' no_options) ''/repo'' offline_repo =
             (Completed 0 [] [], ?w2)"
    by code_simp+
  have p: "sample_git [''push'', ''origin'', ''release-1.2.0''] ''/repo'' ?w1 =
             (Completed 0 [] [], ?w1)"
    by code_simp
  have a: "create_tag sample_git ''1.2.0'' release_options ''/repo'' fresh_repo =
     (Inr (True, ''Created and pushed tag release-1.2.0''), ?w1)"
    using l(1) q(1) c(1) p
      C8_success_messages[of sample_git "''/repo''" release_options "''1.2.0''" fresh_repo
        "[]" "[]" ?w1 "[]" "[]" ?w1]
    by (simp add: n)
  have b: "create_tag sample_git ''1.1.0'' no_options ''/repo'' offline_repo =
     (Inr (True, ''Created tag v1.1.0''), ?w2)"
    using l(2) q(2) c(2)
      C8_success_messages[of sample_git "''/repo''" no_options "''1.1.0''" offline_repo
        "[]" "[]" ?w2 "[]" "[]" ?w2]
    by (simp add: n)
  show ?thesis using a b by simp
qed

end
